theory Spec2Isabelle
  imports Complex_Main
begin

section \<open>Numbers\<close>

text \<open>
  The controller computes with Python and numpy floats. Finite arithmetic is idealised
  as arithmetic on \<^typ>\<open>real\<close> (no rounding, no overflow). The two places where the
  source works with a non-finite float are written out: the initial
  \<^verbatim>\<open>min_dist = float("inf")\<close> of the desired-speed search, and the quotient
  \<^verbatim>\<open>5 * crosstrack_error / (v)\<close> of the lateral law, whose numerator is a numpy
  float, so that a zero divisor gives an infinity or NaN instead of raising. A real
  \<open>0\<close> stands for the float \<open>+0.0\<close> (or the integer \<open>0\<close>).
\<close>

datatype npfloat = Fin real | PInf | NInf | NaN

text \<open>The comparison \<^verbatim>\<open>a < b\<close> of floats: false as soon as a NaN is involved.\<close>

fun np_less :: "npfloat \<Rightarrow> npfloat \<Rightarrow> bool" where
  "np_less (Fin a) (Fin b) = (a < b)"
| "np_less (Fin a) PInf = True"
| "np_less NInf (Fin b) = True"
| "np_less NInf PInf = True"
| "np_less _ _ = False"

text \<open>Division of a numpy float by a number: division by zero does not raise.\<close>

definition np_divide :: "real \<Rightarrow> real \<Rightarrow> npfloat" where
  "np_divide a b =
     (if b \<noteq> 0 then Fin (a / b)
      else if 0 < a then PInf
      else if a < 0 then NInf
      else NaN)"

fun np_arctan :: "npfloat \<Rightarrow> npfloat" where
  "np_arctan (Fin a) = Fin (arctan a)"
| "np_arctan PInf = Fin (pi / 2)"
| "np_arctan NInf = Fin (- (pi / 2))"
| "np_arctan NaN = NaN"

fun np_add :: "npfloat \<Rightarrow> real \<Rightarrow> npfloat" where
  "np_add (Fin a) r = Fin (a + r)"
| "np_add PInf r = PInf"
| "np_add NInf r = NInf"
| "np_add NaN r = NaN"

text \<open>
  \<^verbatim>\<open>np.arctan2(y, x)\<close>, the angle of the point \<open>(x, y)\<close> in \<open>[-pi, pi]\<close>, with
  \<open>arctan2(0, 0) = 0\<close>.
\<close>

definition arctan2 :: "real \<Rightarrow> real \<Rightarrow> real" where
  "arctan2 y x =
     (if 0 < x then arctan (y / x)
      else if x < 0 then (if 0 \<le> y then arctan (y / x) + pi else arctan (y / x) - pi)
      else if 0 < y then pi / 2
      else if y < 0 then - (pi / 2)
      else 0)"

text \<open>
  Python's builtins \<^verbatim>\<open>min(a, b)\<close> and \<^verbatim>\<open>max(a, b)\<close> keep the first argument
  unless the second is strictly smaller (larger): a NaN second argument is dropped.
\<close>

definition py_min :: "npfloat \<Rightarrow> npfloat \<Rightarrow> npfloat" where
  "py_min a b = (if np_less b a then b else a)"

definition py_max :: "npfloat \<Rightarrow> npfloat \<Rightarrow> npfloat" where
  "py_max a b = (if np_less a b then b else a)"

section \<open>Errors and indexing\<close>

datatype error = IndexError | AttributeError | UnboundLocalError

text \<open>\<^verbatim>\<open>xs[i]\<close>: a negative index counts from the end, an index out of range raises.\<close>

definition py_index :: "'a list \<Rightarrow> int \<Rightarrow> error + 'a" where
  "py_index xs i =
     (if 0 \<le> i \<and> i < int (length xs) then Inr (xs ! nat i)
      else if i < 0 \<and> - int (length xs) \<le> i then Inr (xs ! nat (int (length xs) + i))
      else Inl IndexError)"

section \<open>The controller's data\<close>

text \<open>A waypoint is \<^verbatim>\<open>[x, y, v]\<close>; the path is the list of waypoints.\<close>

type_synonym waypoint = "real \<times> real \<times> real"

definition wp_x :: "waypoint \<Rightarrow> real" where "wp_x w = fst w"
definition wp_y :: "waypoint \<Rightarrow> real" where "wp_y w = fst (snd w)"
definition wp_v :: "waypoint \<Rightarrow> real" where "wp_v w = snd (snd w)"

text \<open>
  The fields of \<^verbatim>\<open>Controller2D\<close>. \<open>vars\<close> holds the attributes of the
  \<^verbatim>\<open>cutils.CUtils\<close> object; the fields \<^verbatim>\<open>_set_throttle\<close>, \<^verbatim>\<open>_set_steer\<close> and
  \<^verbatim>\<open>_set_brake\<close> carry the suffix \<open>_fld\<close>, their setters keep the plain names.
\<close>

record controller =
  vars :: "string \<rightharpoonup> real"
  current_x :: real
  current_y :: real
  current_yaw :: real
  current_speed :: real
  desired_speed :: real
  current_frame :: int
  current_timestamp :: real
  start_control_loop :: bool
  set_throttle_fld :: real
  set_brake_fld :: real
  set_steer_fld :: real
  waypoints :: "waypoint list"

definition conv_rad_to_steer :: real where
  "conv_rad_to_steer = 180 / 70 / pi"

definition init :: "waypoint list \<Rightarrow> controller" where
  "init wps =
     \<lparr>vars = Map.empty, current_x = 0, current_y = 0, current_yaw = 0, current_speed = 0,
      desired_speed = 0, current_frame = 0, current_timestamp = 0,
      start_control_loop = False, set_throttle_fld = 0, set_brake_fld = 0,
      set_steer_fld = 0, waypoints = wps\<rparr>"

text \<open>
  Modelled from the spec: \<^verbatim>\<open>cutils.CUtils.create_var\<close> is not among the sources.
  The controller's own comment describes it: it creates a persistent variable with a
  default value, which is not destroyed at each iteration; the spec says the persistent
  state is initialised at construction and never reset. So a variable that exists
  keeps its value.
\<close>

definition create_var :: "string \<Rightarrow> real \<Rightarrow> (string \<rightharpoonup> real) \<Rightarrow> (string \<rightharpoonup> real)" where
  "create_var var_name val m = (case m var_name of None \<Rightarrow> m(var_name \<mapsto> val) | Some _ \<Rightarrow> m)"

section \<open>The operations\<close>

definition update_values ::
    "real \<Rightarrow> real \<Rightarrow> real \<Rightarrow> real \<Rightarrow> real \<Rightarrow> int \<Rightarrow> controller \<Rightarrow> controller" where
  "update_values x y yaw speed timestamp frame s =
     (let s1 = s\<lparr>current_x := x, current_y := y, current_yaw := yaw, current_speed := speed,
                 current_timestamp := timestamp, current_frame := frame\<rparr>
      in if current_frame s1 \<noteq> 0 then s1\<lparr>start_control_loop := True\<rparr> else s1)"

text \<open>
  The scan of both nearest-waypoint loops: \<open>i\<close> runs over \<^verbatim>\<open>range(len(waypoints))\<close>,
  the pair is the running \<open>(minimal distance, index)\<close>, replaced when the distance of
  waypoint \<open>i\<close> is strictly smaller.
\<close>

fun nearest_scan :: "real \<Rightarrow> real \<Rightarrow> waypoint list \<Rightarrow> int \<Rightarrow> npfloat \<times> int \<Rightarrow> npfloat \<times> int" where
  "nearest_scan x y [] i acc = acc"
| "nearest_scan x y (w # ws) i (min_dist, min_idx) =
     (let dist = sqrt ((wp_x w - x) ^ 2 + (wp_y w - y) ^ 2)
      in if np_less (Fin dist) min_dist
         then nearest_scan x y ws (i + 1) (Fin dist, i)
         else nearest_scan x y ws (i + 1) (min_dist, min_idx))"

text \<open>The search of \<^verbatim>\<open>update_desired_speed\<close>: it starts from \<open>(inf, 0)\<close>.\<close>

definition desired_min_idx :: "controller \<Rightarrow> int" where
  "desired_min_idx s = snd (nearest_scan (current_x s) (current_y s) (waypoints s) 0 (PInf, 0))"

definition update_desired_speed :: "controller \<Rightarrow> error + controller" where
  "update_desired_speed s =
     (let min_idx = desired_min_idx s
      in case (if min_idx < int (length (waypoints s)) - 1
               then py_index (waypoints s) min_idx
               else py_index (waypoints s) (- 1)) of
           Inl e \<Rightarrow> Inl e
         | Inr w \<Rightarrow> Inr (s\<lparr>desired_speed := wp_v w\<rparr>))"

definition update_waypoints :: "waypoint list \<Rightarrow> controller \<Rightarrow> controller" where
  "update_waypoints new_waypoints s = s\<lparr>waypoints := new_waypoints\<rparr>"

text \<open>The command as \<open>(throttle, steer, brake)\<close>.\<close>

definition get_commands :: "controller \<Rightarrow> real \<times> real \<times> real" where
  "get_commands s = (set_throttle_fld s, set_steer_fld s, set_brake_fld s)"

text \<open>\<^verbatim>\<open>np.fmax(np.fmin(x, 1.0), lo)\<close> on finite floats.\<close>

definition set_throttle :: "real \<Rightarrow> controller \<Rightarrow> controller" where
  "set_throttle input_throttle s = s\<lparr>set_throttle_fld := max (min input_throttle 1) 0\<rparr>"

definition set_steer :: "real \<Rightarrow> controller \<Rightarrow> controller" where
  "set_steer input_steer_in_rad s =
     (let input_steer = conv_rad_to_steer * input_steer_in_rad
      in s\<lparr>set_steer_fld := max (min input_steer 1) (- 1)\<rparr>)"

definition set_brake :: "real \<Rightarrow> controller \<Rightarrow> controller" where
  "set_brake input_brake s = s\<lparr>set_brake_fld := max (min input_brake 1) 0\<rparr>"

subsection \<open>The control cycle\<close>

text \<open>The four \<^verbatim>\<open>create_var\<close> calls at the head of \<^verbatim>\<open>update_controls\<close>.\<close>

definition declare_vars :: "controller \<Rightarrow> controller" where
  "declare_vars s =
     s\<lparr>vars := create_var ''steer_output_p'' 0 (create_var ''e_total'' 0
               (create_var ''e_previous'' 0 (create_var ''v_previous'' 0 (vars s))))\<rparr>"

text \<open>
  The longitudinal controller. It returns the state with \<open>e_total\<close> and \<open>e_previous\<close>
  stored, and the locals \<open>(throttle_output, brake_output)\<close>; reading a variable that
  does not exist raises.
\<close>

definition longitudinal :: "controller \<Rightarrow> (error \<times> controller) + (controller \<times> real \<times> real)" where
  "longitudinal s =
     (let K_p = 0.2; K_d = 0.05; K_i = 0.01;
          error_v = desired_speed s - current_speed s
      in case vars s ''e_total'' of
           None \<Rightarrow> Inl (AttributeError, s)
         | Some e_total \<Rightarrow>
             let s1 = s\<lparr>vars := (vars s)(''e_total'' \<mapsto> e_total + error_v)\<rparr>
             in (case vars s1 ''e_previous'' of
                   None \<Rightarrow> Inl (AttributeError, s1)
                 | Some e_previous \<Rightarrow>
                     let target_acc = K_p * error_v + K_i * (e_total + error_v)
                                      + K_d * (error_v - e_previous);
                         throttle_output = (if target_acc < 0 then 0 else target_acc);
                         brake_output = (if target_acc < 0 then \<bar>target_acc\<bar> else 0)
                     in Inr (s1\<lparr>vars := (vars s1)(''e_previous'' \<mapsto> error_v)\<rparr>,
                             throttle_output, brake_output)))"

text \<open>The search of the lateral controller: it starts from \<open>(10000000, len - 1)\<close>.\<close>

definition lateral_idx :: "controller \<Rightarrow> int" where
  "lateral_idx s =
     snd (nearest_scan (current_x s) (current_y s) (waypoints s) 0
            (Fin 10000000, int (length (waypoints s)) - 1))"

definition lookahead_idy :: "int \<Rightarrow> int \<Rightarrow> int" where
  "lookahead_idy idx len = (if idx < len - 18 then idx + 17 else len - 1)"

text \<open>The heading error, wrapped by \<^verbatim>\<open>if / elif / else\<close>.\<close>

definition wrap_theta_fai :: "real \<Rightarrow> real" where
  "wrap_theta_fai theta_fai =
     (if theta_fai > pi then theta_fai - 2 * pi
      else if theta_fai < - pi then theta_fai + 2 * pi
      else theta_fai)"

text \<open>The expected steering, wrapped by two \<^verbatim>\<open>if\<close>s in sequence.\<close>

definition wrap_steer_expect :: "npfloat \<Rightarrow> npfloat" where
  "wrap_steer_expect steer_expect =
     (let s1 = (if np_less (Fin pi) steer_expect then np_add steer_expect (- (2 * pi))
                else steer_expect)
      in if np_less s1 (Fin (- pi)) then np_add s1 (2 * pi) else s1)"

definition yaw_diff_crosstrack :: "real \<Rightarrow> real \<Rightarrow> npfloat" where
  "yaw_diff_crosstrack crosstrack_error v = np_arctan (np_divide (5 * crosstrack_error) v)"

text \<open>
  \<^verbatim>\<open>steer_expect = min(1.22, steer_expect); steer_expect = max(-1.22, steer_expect)\<close>.
  The result is finite whatever the argument: a NaN or \<open>+inf\<close> is replaced by \<open>1.22\<close>
  in the first step, a \<open>-inf\<close> by \<open>-1.22\<close> in the second.
\<close>

definition clamp_steer_expect :: "npfloat \<Rightarrow> real" where
  "clamp_steer_expect steer_expect =
     (case py_max (Fin (- 1.22)) (py_min (Fin 1.22) steer_expect) of
        Fin r \<Rightarrow> r | PInf \<Rightarrow> 1.22 | NInf \<Rightarrow> - 1.22 | NaN \<Rightarrow> 1.22)"

text \<open>
  The lateral controller: it reads the state and returns the local \<open>steer_output\<close>.
  \<open>yaw_path2ct\<close> is computed by the source and never used.
\<close>

definition lateral :: "controller \<Rightarrow> error + real" where
  "lateral s =
     (let wps = waypoints s; x = current_x s; y = current_y s; yaw = current_yaw s;
          v = current_speed s;
          idx = lateral_idx s;
          idy = lookahead_idy idx (int (length wps))
      in case py_index wps idy of Inl e \<Rightarrow> Inl e | Inr w_idy \<Rightarrow>
         (case py_index wps idx of Inl e \<Rightarrow> Inl e | Inr w_idx \<Rightarrow>
         (case py_index wps 0 of Inl e \<Rightarrow> Inl e | Inr w_0 \<Rightarrow>
            let alpha = arctan2 (wp_y w_idy - wp_y w_idx) (wp_x w_idy - wp_x w_idx);
                laterr = (x - wp_x w_idx) * sin alpha + (y - wp_y w_idx) * cos alpha;
                yaw_path = arctan2 (wp_y w_idy - wp_y w_idx) (wp_x w_idy - wp_x w_idx);
                theta_fai = wrap_theta_fai (yaw_path - yaw);
                yaw_cross_track = arctan2 (y - wp_y w_0) (x - wp_x w_0);
                yaw_path2ct = yaw_path - yaw_cross_track;
                crosstrack_error = (if theta_fai > 0 then \<bar>laterr\<bar> else - \<bar>laterr\<bar>);
                steer_expect = np_add (yaw_diff_crosstrack crosstrack_error v) theta_fai
            in Inr (clamp_steer_expect (wrap_steer_expect steer_expect)))))"

text \<open>
  \<^verbatim>\<open>update_controls\<close>. \<open>Inr s'\<close>: the call returned and left the state \<open>s'\<close>;
  \<open>Inl (e, s')\<close>: it raised \<open>e\<close> and left the state \<open>s'\<close>. The local \<open>s1\<close> is assigned
  in the active branch only, and read by the last statement in both.
\<close>

definition update_controls :: "controller \<Rightarrow> (error \<times> controller) + controller" where
  "update_controls s =
     (let v = current_speed s
      in case update_desired_speed s of
           Inl e \<Rightarrow> Inl (e, s)
         | Inr sa \<Rightarrow>
             let sb = declare_vars sa
             in if start_control_loop sb
                then (case longitudinal sb of
                        Inl r \<Rightarrow> Inl r
                      | Inr (sc, throttle_output, brake_output) \<Rightarrow>
                          (case lateral sc of
                             Inl e \<Rightarrow> Inl (e, sc)
                           | Inr steer_output \<Rightarrow>
                               let s1 = steer_output;
                                   sd = set_brake brake_output
                                          (set_steer steer_output
                                             (set_throttle throttle_output sc))
                               in Inr (sd\<lparr>vars := (vars sd)(''v_previous'' \<mapsto> v,
                                                              ''steer_output_p'' \<mapsto> s1)\<rparr>)))
                else Inl (UnboundLocalError, sb\<lparr>vars := (vars sb)(''v_previous'' \<mapsto> v)\<rparr>))"

subsection \<open>Sequences of calls\<close>

datatype op =
    UpdateValues real real real real real int
  | UpdateDesiredSpeed
  | UpdateWaypoints "waypoint list"
  | SetThrottle real
  | SetSteer real
  | SetBrake real
  | UpdateControls

text \<open>The state a call leaves behind, whether it returned or raised.\<close>

fun step :: "op \<Rightarrow> controller \<Rightarrow> controller" where
  "step (UpdateValues x y yaw speed timestamp frame) s = update_values x y yaw speed timestamp frame s"
| "step UpdateDesiredSpeed s = (case update_desired_speed s of Inl e \<Rightarrow> s | Inr s' \<Rightarrow> s')"
| "step (UpdateWaypoints wps) s = update_waypoints wps s"
| "step (SetThrottle t) s = set_throttle t s"
| "step (SetSteer a) s = set_steer a s"
| "step (SetBrake b) s = set_brake b s"
| "step UpdateControls s = (case update_controls s of Inl (e, s') \<Rightarrow> s' | Inr s' \<Rightarrow> s')"

definition run :: "op list \<Rightarrow> controller \<Rightarrow> controller" where
  "run ops s = fold step ops s"

text \<open>The calls of a driver that only observes, replaces the path and computes.\<close>

fun cycle_op :: "op \<Rightarrow> bool" where
  "cycle_op (UpdateValues x y yaw speed timestamp frame) = True"
| "cycle_op (UpdateWaypoints wps) = True"
| "cycle_op UpdateControls = True"
| "cycle_op _ = False"

section \<open>Notions of the specification\<close>

text \<open>The documented bounds of a command \<open>(throttle, steer, brake)\<close>.\<close>

definition command_in_bounds :: "real \<times> real \<times> real \<Rightarrow> bool" where
  "command_in_bounds c =
     (case c of (throttle, steer, brake) \<Rightarrow>
        0 \<le> throttle \<and> throttle \<le> 1 \<and> - 1 \<le> steer \<and> steer \<le> 1 \<and> 0 \<le> brake \<and> brake \<le> 1)"

text \<open>
  The value a persistent variable has at the start of a cycle: its stored value, or the
  default \<open>0.0\<close> with which the cycle creates it.
\<close>

definition persistent_value :: "controller \<Rightarrow> string \<Rightarrow> real" where
  "persistent_value s var_name = (case vars s var_name of None \<Rightarrow> 0 | Some v \<Rightarrow> v)"

text \<open>
  The longitudinal law in the words of the specification: the error, the integral
  accumulated without a clamp, the derivative, the target acceleration with the gains
  \<open>0.2\<close>, \<open>0.01\<close>, \<open>0.05\<close>, the mapping to throttle and brake, both saturated to
  \<open>[0, 1]\<close>. The result is \<open>(throttle, brake, integral, previous_error)\<close>.
\<close>

definition saturate01 :: "real \<Rightarrow> real" where
  "saturate01 u = (if u < 0 then 0 else if 1 < u then 1 else u)"

definition pid_law :: "real \<Rightarrow> real \<Rightarrow> real \<Rightarrow> real \<Rightarrow> real \<times> real \<times> real \<times> real" where
  "pid_law desired current integral previous_error =
     (let error = desired - current;
          integral' = integral + error;
          derivative = error - previous_error;
          target_acceleration = 0.2 * error + 0.01 * integral' + 0.05 * derivative;
          throttle = (if target_acceleration < 0 then 0 else target_acceleration);
          brake = (if target_acceleration < 0 then \<bar>target_acceleration\<bar> else 0)
      in (saturate01 throttle, saturate01 brake, integral', error))"

text \<open>The Euclidean distance of a waypoint to the position \<open>(x, y)\<close>.\<close>

definition wp_dist :: "real \<Rightarrow> real \<Rightarrow> waypoint \<Rightarrow> real" where
  "wp_dist x y w = sqrt ((wp_x w - x) ^ 2 + (wp_y w - y) ^ 2)"

text \<open>
  The target acceleration of a cycle that starts in the state \<open>s\<close>: the PID sum for the
  target speed of the waypoint the desired-speed search selects.
\<close>

definition target_acceleration :: "controller \<Rightarrow> real" where
  "target_acceleration s =
     (let error = wp_v (waypoints s ! nat (desired_min_idx s)) - current_speed s;
          integral = persistent_value s ''e_total'' + error;
          derivative = error - persistent_value s ''e_previous''
      in 0.2 * error + 0.01 * integral + 0.05 * derivative)"

section \<open>Auxiliary facts\<close>

subsection \<open>Persistent variables and indexing\<close>

lemma create_var_same:
  "create_var n d m n = Some (case m n of None \<Rightarrow> d | Some v \<Rightarrow> v)"
  by (simp add: create_var_def split: option.splits)

lemma create_var_other: "n' \<noteq> n \<Longrightarrow> create_var n d m n' = m n'"
  by (simp add: create_var_def split: option.splits)

lemma declare_vars_e_total:
  "vars (declare_vars s) ''e_total'' = Some (case vars s ''e_total'' of None \<Rightarrow> 0 | Some v \<Rightarrow> v)"
  by (simp add: declare_vars_def create_var_same create_var_other)

lemma declare_vars_e_previous:
  "vars (declare_vars s) ''e_previous'' = Some (case vars s ''e_previous'' of None \<Rightarrow> 0 | Some v \<Rightarrow> v)"
  by (simp add: declare_vars_def create_var_same create_var_other)

lemma py_index_in_range:
  "0 \<le> i \<Longrightarrow> i < int (length xs) \<Longrightarrow> py_index xs i = Inr (xs ! nat i)"
  by (simp add: py_index_def)

lemma py_index_last: "xs \<noteq> [] \<Longrightarrow> py_index xs (- 1) = Inr (last xs)"
  by (cases xs rule: rev_cases) (auto simp add: py_index_def nth_append)

lemma nearest_scan_idx_range:
  "snd (nearest_scan x y ws i (d, j)) = j \<or>
   (i \<le> snd (nearest_scan x y ws i (d, j)) \<and> snd (nearest_scan x y ws i (d, j)) < i + int (length ws))"
proof (induction ws arbitrary: i d j)
  case Nil
  then show ?case by simp
next
  case (Cons w ws)
  let ?dist = "sqrt ((wp_x w - x) ^ 2 + (wp_y w - y) ^ 2)"
  show ?case
  proof (cases "np_less (Fin ?dist) d")
    case True
    with Cons.IH [of "i + 1" "Fin ?dist" i] show ?thesis by (auto simp add: Let_def)
  next
    case False
    with Cons.IH [of "i + 1" d j] show ?thesis by (auto simp add: Let_def)
  qed
qed

lemma desired_min_idx_range:
  "waypoints s \<noteq> [] \<Longrightarrow> 0 \<le> desired_min_idx s \<and> desired_min_idx s < int (length (waypoints s))"
  using nearest_scan_idx_range [of "current_x s" "current_y s" "waypoints s" 0 PInf 0]
  by (auto simp add: desired_min_idx_def)

lemma lateral_idx_range:
  "waypoints s \<noteq> [] \<Longrightarrow> 0 \<le> lateral_idx s \<and> lateral_idx s < int (length (waypoints s))"
  using nearest_scan_idx_range [of "current_x s" "current_y s" "waypoints s" 0 "Fin 10000000"
      "int (length (waypoints s)) - 1"]
  by (cases "waypoints s") (auto simp add: lateral_idx_def)

lemma lookahead_idy_range:
  "0 \<le> idx \<Longrightarrow> idx < len \<Longrightarrow> 0 \<le> lookahead_idy idx len \<and> lookahead_idy idx len < len"
  by (simp add: lookahead_idy_def)

lemma update_desired_speed_returns:
  assumes "waypoints s \<noteq> []"
  shows "update_desired_speed s =
           Inr (s\<lparr>desired_speed := wp_v (waypoints s ! nat (desired_min_idx s))\<rparr>)"
proof -
  let ?n = "int (length (waypoints s))"
  from assms have r: "0 \<le> desired_min_idx s" "desired_min_idx s < ?n"
    using desired_min_idx_range by blast+
  show ?thesis
  proof (cases "desired_min_idx s < ?n - 1")
    case True
    then show ?thesis using r by (simp add: update_desired_speed_def py_index_in_range)
  next
    case False
    with r have e: "desired_min_idx s = ?n - 1" by linarith
    have "last (waypoints s) = waypoints s ! nat (desired_min_idx s)"
      using assms e by (simp add: last_conv_nth nat_diff_distrib')
    then show ?thesis using False assms
      by (simp add: update_desired_speed_def py_index_last)
  qed
qed

lemma lateral_returns:
  "waypoints s \<noteq> [] \<Longrightarrow> \<exists>r. lateral s = Inr r"
  using lateral_idx_range [of s]
    lookahead_idy_range [of "lateral_idx s" "int (length (waypoints s))"]
  by (simp add: lateral_def Let_def py_index_in_range)

subsection \<open>The warm-up cycle and the fields a cycle leaves alone\<close>

lemma update_controls_warmup:
  assumes "\<not> start_control_loop s" "waypoints s \<noteq> []"
  shows "update_controls s =
           Inl (UnboundLocalError,
                s\<lparr>desired_speed := wp_v (waypoints s ! nat (desired_min_idx s)),
                  vars := (vars (declare_vars s))(''v_previous'' \<mapsto> current_speed s)\<rparr>)"
  using assms
  by (simp add: update_controls_def update_desired_speed_returns declare_vars_def)

text \<open>Fields that no outcome of a cycle changes.\<close>

lemma longitudinal_frame:
  "longitudinal s = Inr (s', t, b) \<Longrightarrow>
     start_control_loop s' = start_control_loop s \<and> waypoints s' = waypoints s \<and>
     set_throttle_fld s' = set_throttle_fld s \<and> set_steer_fld s' = set_steer_fld s \<and>
     set_brake_fld s' = set_brake_fld s \<and> current_speed s' = current_speed s \<and>
     desired_speed s' = desired_speed s"
  by (auto simp add: longitudinal_def Let_def split: option.splits)

lemma longitudinal_frame_raise:
  "longitudinal s = Inl (e, s') \<Longrightarrow>
     start_control_loop s' = start_control_loop s \<and> waypoints s' = waypoints s \<and>
     set_throttle_fld s' = set_throttle_fld s \<and> set_steer_fld s' = set_steer_fld s \<and>
     set_brake_fld s' = set_brake_fld s"
  by (auto simp add: longitudinal_def Let_def split: option.splits)

lemma update_desired_speed_frame:
  "update_desired_speed s = Inr s' \<Longrightarrow>
     start_control_loop s' = start_control_loop s \<and> waypoints s' = waypoints s \<and>
     set_throttle_fld s' = set_throttle_fld s \<and> set_steer_fld s' = set_steer_fld s \<and>
     set_brake_fld s' = set_brake_fld s \<and> vars s' = vars s \<and> current_speed s' = current_speed s"
  by (auto simp add: update_desired_speed_def Let_def split: sum.splits if_splits)





subsection \<open>The active cycle\<close>

lemma lateral_reads:
  "lateral (s\<lparr>desired_speed := d, vars := m\<rparr>) = lateral s"
  by (simp add: lateral_def lateral_idx_def)

lemma longitudinal_declared:
  assumes "vars s ''e_total'' = Some et" and "vars s ''e_previous'' = Some ep"
    and "err = desired_speed s - current_speed s"
    and "tgt = 0.2 * err + 0.01 * (et + err) + 0.05 * (err - ep)"
  shows "longitudinal s =
           Inr (s\<lparr>vars := (vars s)(''e_total'' \<mapsto> et + err, ''e_previous'' \<mapsto> err)\<rparr>,
                (if tgt < 0 then 0 else tgt), (if tgt < 0 then \<bar>tgt\<bar> else 0))"
  using assms by (simp add: longitudinal_def Let_def)

lemma update_controls_active:
  assumes act: "start_control_loop s" and ne: "waypoints s \<noteq> []"
    and d: "d = wp_v (waypoints s ! nat (desired_min_idx s))"
    and et: "et = (case vars s ''e_total'' of None \<Rightarrow> 0 | Some v \<Rightarrow> v)"
    and ep: "ep = (case vars s ''e_previous'' of None \<Rightarrow> 0 | Some v \<Rightarrow> v)"
    and err: "err = d - current_speed s"
    and tgt: "tgt = 0.2 * err + 0.01 * (et + err) + 0.05 * (err - ep)"
  shows "\<exists>r s'. lateral s = Inr r \<and> update_controls s = Inr s' \<and>
           set_throttle_fld s' = max (min (if tgt < 0 then 0 else tgt) 1) 0 \<and>
           set_brake_fld s' = max (min (if tgt < 0 then \<bar>tgt\<bar> else 0) 1) 0 \<and>
           set_steer_fld s' = max (min (conv_rad_to_steer * r) 1) (- 1) \<and>
           desired_speed s' = d \<and>
           vars s' ''e_total'' = Some (et + err) \<and>
           vars s' ''e_previous'' = Some err \<and>
           vars s' ''v_previous'' = Some (current_speed s) \<and>
           vars s' ''steer_output_p'' = Some r \<and>
           start_control_loop s' \<and> waypoints s' = waypoints s"
proof -
  from ne obtain r where r: "lateral s = Inr r" using lateral_returns by blast
  let ?sa = "s\<lparr>desired_speed := d\<rparr>"
  let ?sb = "declare_vars ?sa"
  have uds: "update_desired_speed s = Inr ?sa"
    using ne d by (simp add: update_desired_speed_returns)
  have v1: "vars ?sb ''e_total'' = Some et"
    using et by (simp add: declare_vars_e_total)
  have v2: "vars ?sb ''e_previous'' = Some ep"
    using ep by (simp add: declare_vars_e_previous)
  have e: "err = desired_speed ?sb - current_speed ?sb"
    using err by (simp add: declare_vars_def)
  let ?sc = "?sb\<lparr>vars := (vars ?sb)(''e_total'' \<mapsto> et + err, ''e_previous'' \<mapsto> err)\<rparr>"
  have lon: "longitudinal ?sb =
      Inr (?sc, (if tgt < 0 then 0 else tgt), (if tgt < 0 then \<bar>tgt\<bar> else 0))"
    by (rule longitudinal_declared [OF v1 v2 e tgt])
  have lat: "lateral ?sc = Inr r"
    using r by (simp add: declare_vars_def lateral_reads)
  have actb: "start_control_loop ?sb" using act by (simp add: declare_vars_def)
  show ?thesis
    using r
    by (simp add: update_controls_def uds actb lon lat Let_def set_throttle_def set_steer_def
        set_brake_def, simp add: declare_vars_def act)
qed

lemma update_controls_active_returns:
  "start_control_loop s \<Longrightarrow> waypoints s \<noteq> [] \<Longrightarrow> \<exists>s'. update_controls s = Inr s'"
  using update_controls_active [of s, OF _ _ refl refl refl refl refl] by blast

subsection \<open>What a cycle does to the command\<close>

lemma longitudinal_outputs:
  assumes "longitudinal s = Inr (s', t, b)"
  shows "\<exists>tgt. t = (if tgt < 0 then 0 else tgt) \<and> b = (if tgt < 0 then \<bar>tgt\<bar> else 0)"
proof (cases "vars s ''e_total''")
  case None
  with assms show ?thesis by (simp add: longitudinal_def)
next
  case (Some et)
  note et = this
  show ?thesis
  proof (cases "vars s ''e_previous''")
    case None
    with assms et show ?thesis by (simp add: longitudinal_def Let_def)
  next
    case (Some ep)
    define err where "err = desired_speed s - current_speed s"
    define tgt where "tgt = 0.2 * err + 0.01 * (et + err) + 0.05 * (err - ep)"
    from longitudinal_declared [OF et Some err_def tgt_def] assms
    have "t = (if tgt < 0 then 0 else tgt) \<and> b = (if tgt < 0 then \<bar>tgt\<bar> else 0)"
      by simp
    then show ?thesis by (rule exI)
  qed
qed

lemma update_controls_Inr_cases:
  assumes "update_controls s = Inr s'"
  obtains sa sc t b r where "update_desired_speed s = Inr sa"
    and "longitudinal (declare_vars sa) = Inr (sc, t, b)"
    and "lateral sc = Inr r"
    and "s' = (set_brake b (set_steer r (set_throttle t sc)))
                \<lparr>vars := (vars (set_brake b (set_steer r (set_throttle t sc))))
                   (''v_previous'' \<mapsto> current_speed s, ''steer_output_p'' \<mapsto> r)\<rparr>"
proof (cases "update_desired_speed s")
  case (Inl e)
  with assms show ?thesis by (simp add: update_controls_def)
next
  case (Inr sa)
  note uds = this
  show ?thesis
  proof (cases "start_control_loop (declare_vars sa)")
    case False
    with assms uds show ?thesis by (simp add: update_controls_def Let_def)
  next
    case True
    note act = this
    show ?thesis
    proof (cases "longitudinal (declare_vars sa)")
      case (Inl p)
      with assms uds act show ?thesis by (simp add: update_controls_def Let_def)
    next
      case (Inr q)
      then obtain sc t b where lon: "longitudinal (declare_vars sa) = Inr (sc, t, b)"
        by (cases q) simp
      show ?thesis
      proof (cases "lateral sc")
        case (Inl e)
        with assms uds act lon show ?thesis by (simp add: update_controls_def Let_def)
      next
        case (Inr r)
        with assms uds act lon that [of sa sc t b r] show ?thesis
          by (simp add: update_controls_def Let_def)
      qed
    qed
  qed
qed

lemma update_controls_Inr_commands:
  assumes "update_controls s = Inr s'"
  shows "\<exists>tgt r. set_throttle_fld s' = max (min (if tgt < 0 then 0 else tgt) 1) 0 \<and>
             set_brake_fld s' = max (min (if tgt < 0 then \<bar>tgt\<bar> else 0) 1) 0 \<and>
             set_steer_fld s' = max (min (conv_rad_to_steer * r) 1) (- 1)"
proof -
  from assms obtain sa sc t b r where
    lon: "longitudinal (declare_vars sa) = Inr (sc, t, b)" and
    s': "s' = (set_brake b (set_steer r (set_throttle t sc)))
                \<lparr>vars := (vars (set_brake b (set_steer r (set_throttle t sc))))
                   (''v_previous'' \<mapsto> current_speed s, ''steer_output_p'' \<mapsto> r)\<rparr>"
    by (rule update_controls_Inr_cases)
  from longitudinal_outputs [OF lon] obtain tgt where
    tb: "t = (if tgt < 0 then 0 else tgt)" "b = (if tgt < 0 then \<bar>tgt\<bar> else 0)" by blast
  have "set_throttle_fld s' = max (min t 1) 0" "set_brake_fld s' = max (min b 1) 0"
    "set_steer_fld s' = max (min (conv_rad_to_steer * r) 1) (- 1)"
    unfolding s' by (simp_all add: set_throttle_def set_steer_def set_brake_def)
  with tb show ?thesis by blast
qed

lemma update_controls_Inl_commands:
  assumes "update_controls s = Inl (e, s')"
  shows "get_commands s' = get_commands s"
proof (cases "update_desired_speed s")
  case (Inl e')
  with assms show ?thesis by (simp add: update_controls_def)
next
  case (Inr sa)
  note uds = this
  from update_desired_speed_frame [OF uds]
  have fa: "get_commands (declare_vars sa) = get_commands s"
    by (simp add: get_commands_def declare_vars_def)
  show ?thesis
  proof (cases "start_control_loop (declare_vars sa)")
    case False
    with assms uds fa show ?thesis
      by (auto simp add: update_controls_def Let_def get_commands_def)
  next
    case True
    note act = this
    show ?thesis
    proof (cases "longitudinal (declare_vars sa)")
      case (Inl p)
      with assms uds act have "longitudinal (declare_vars sa) = Inl (e, s')"
        by (simp add: update_controls_def Let_def)
      from longitudinal_frame_raise [OF this] fa show ?thesis
        by (simp add: get_commands_def)
    next
      case (Inr q)
      then obtain sc t b where lon: "longitudinal (declare_vars sa) = Inr (sc, t, b)"
        by (cases q) simp
      show ?thesis
      proof (cases "lateral sc")
        case (Inl e')
        with assms uds act lon have "s' = sc" by (simp add: update_controls_def Let_def)
        with longitudinal_frame [OF lon] fa show ?thesis by (simp add: get_commands_def)
      next
        case (Inr r)
        with assms uds act lon show ?thesis by (simp add: update_controls_def Let_def)
      qed
    qed
  qed
qed

lemma update_desired_speed_commands:
  "update_desired_speed s = Inr s' \<Longrightarrow> get_commands s' = get_commands s"
  using update_desired_speed_frame [of s s'] by (simp add: get_commands_def)

lemma clamp_bounds:
  "(0::real) \<le> max (min u 1) 0" "max (min u 1) 0 \<le> (1::real)"
  "- 1 \<le> max (min u 1) (- 1 :: real)" "max (min u 1) (- 1) \<le> (1::real)"
  by simp_all

lemma step_in_bounds:
  assumes b: "command_in_bounds (get_commands s)"
  shows "command_in_bounds (get_commands (step c s))"
proof (cases c)
  case (UpdateValues x y yaw speed timestamp frame)
  with b show ?thesis
    by (simp add: command_in_bounds_def get_commands_def update_values_def Let_def)
next
  case UpdateDesiredSpeed
  show ?thesis
  proof (cases "update_desired_speed s")
    case (Inl e)
    with b UpdateDesiredSpeed show ?thesis by simp
  next
    case (Inr s')
    with b UpdateDesiredSpeed update_desired_speed_commands [OF Inr] show ?thesis by simp
  qed
next
  case (UpdateWaypoints wps)
  with b show ?thesis
    by (simp add: command_in_bounds_def get_commands_def update_waypoints_def)
next
  case (SetThrottle t)
  with b show ?thesis
    by (simp add: command_in_bounds_def get_commands_def set_throttle_def)
next
  case (SetSteer a)
  with b show ?thesis
    by (simp add: command_in_bounds_def get_commands_def set_steer_def Let_def)
next
  case (SetBrake t)
  with b show ?thesis
    by (simp add: command_in_bounds_def get_commands_def set_brake_def)
next
  case UpdateControls
  show ?thesis
  proof (cases "update_controls s")
    case (Inl p)
    then obtain e s' where "update_controls s = Inl (e, s')" by (cases p) simp
    with b UpdateControls show ?thesis by (simp add: update_controls_Inl_commands)
  next
    case (Inr s')
    from update_controls_Inr_commands [OF Inr] obtain tgt r where
      "set_throttle_fld s' = max (min (if tgt < 0 then 0 else tgt) 1) 0"
      "set_brake_fld s' = max (min (if tgt < 0 then \<bar>tgt\<bar> else 0) 1) 0"
      "set_steer_fld s' = max (min (conv_rad_to_steer * r) 1) (- 1)" by blast
    then show ?thesis using UpdateControls Inr
      by (simp only: command_in_bounds_def get_commands_def step.simps sum.case prod.case
          clamp_bounds simp_thms)
  qed
qed

lemma run_in_bounds:
  "command_in_bounds (get_commands s) \<Longrightarrow> command_in_bounds (get_commands (run ops s))"
  unfolding run_def by (induction ops arbitrary: s) (simp_all add: step_in_bounds)

lemma saturate01_clamp: "max (min u 1) 0 = saturate01 u"
  by (simp add: saturate01_def max_def min_def)

lemma step_not_both:
  assumes "cycle_op c" and "set_throttle_fld s = 0 \<or> set_brake_fld s = 0"
  shows "set_throttle_fld (step c s) = 0 \<or> set_brake_fld (step c s) = 0"
proof (cases c)
  case (UpdateValues x y yaw speed timestamp frame)
  with assms show ?thesis by (simp add: update_values_def Let_def)
next
  case (UpdateWaypoints wps)
  with assms show ?thesis by (simp add: update_waypoints_def)
next
  case UpdateControls
  show ?thesis
  proof (cases "update_controls s")
    case (Inl p)
    then obtain e s' where u: "update_controls s = Inl (e, s')" by (cases p) simp
    from update_controls_Inl_commands [OF u] assms(2) u UpdateControls show ?thesis
      by (simp add: get_commands_def)
  next
    case (Inr s')
    from update_controls_Inr_commands [OF Inr] obtain tgt r where
      "set_throttle_fld s' = max (min (if tgt < 0 then 0 else tgt) 1) 0"
      "set_brake_fld s' = max (min (if tgt < 0 then \<bar>tgt\<bar> else 0) 1) 0" by blast
    then have "set_throttle_fld s' = 0 \<or> set_brake_fld s' = 0" by (cases "tgt < 0") simp_all
    with UpdateControls Inr show ?thesis by simp
  qed
qed (use assms in simp_all)

lemma run_not_both:
  "list_all cycle_op ops \<Longrightarrow> set_throttle_fld s = 0 \<or> set_brake_fld s = 0 \<Longrightarrow>
   set_throttle_fld (run ops s) = 0 \<or> set_brake_fld (run ops s) = 0"
  unfolding run_def
proof (induction ops arbitrary: s)
  case Nil
  then show ?case by simp
next
  case (Cons c ops)
  from Cons.prems have "cycle_op c" "list_all cycle_op ops" by simp_all
  moreover from step_not_both [OF \<open>cycle_op c\<close> Cons.prems(2)]
  have "set_throttle_fld (step c s) = 0 \<or> set_brake_fld (step c s) = 0" .
  ultimately show ?case using Cons.IH [of "step c s"] by simp
qed


lemma active_cycle_one_nonzero:
  assumes "start_control_loop s" and "waypoints s \<noteq> []"
  shows "\<exists>s'. update_controls s = Inr s' \<and>
           (set_throttle_fld s' \<noteq> 0) = (0 < target_acceleration s) \<and>
           (set_brake_fld s' \<noteq> 0) = (target_acceleration s < 0)"
proof -
  define d where "d = wp_v (waypoints s ! nat (desired_min_idx s))"
  define et where "et = (case vars s ''e_total'' of None \<Rightarrow> 0 | Some v \<Rightarrow> v)"
  define ep where "ep = (case vars s ''e_previous'' of None \<Rightarrow> 0 | Some v \<Rightarrow> v)"
  define err where "err = d - current_speed s"
  define tgt where "tgt = 0.2 * err + 0.01 * (et + err) + 0.05 * (err - ep)"
  from update_controls_active [OF assms d_def et_def ep_def err_def tgt_def]
  obtain s' where u: "update_controls s = Inr s'"
    and t: "set_throttle_fld s' = max (min (if tgt < 0 then 0 else tgt) 1) 0"
    and b: "set_brake_fld s' = max (min (if tgt < 0 then \<bar>tgt\<bar> else 0) 1) 0"
    by blast
  have ta: "target_acceleration s = tgt"
    unfolding target_acceleration_def persistent_value_def Let_def
      et_def [symmetric] ep_def [symmetric] d_def [symmetric] err_def [symmetric]
      tgt_def [symmetric] ..
  have "(set_throttle_fld s' \<noteq> 0) = (0 < tgt)" unfolding t by (auto simp add: max_def min_def)
  moreover have "(set_brake_fld s' \<noteq> 0) = (tgt < 0)" unfolding b by (auto simp add: max_def min_def)
  ultimately show ?thesis using u ta by simp
qed

subsection \<open>The nearest-waypoint scan\<close>

text \<open>
  Either no waypoint is strictly nearer than the initial distance and the scan returns
  its initial pair, or it returns the least index among the waypoints of minimal
  distance.
\<close>

lemma np_less_Fin_trans: "a \<le> b \<Longrightarrow> np_less (Fin b) m \<Longrightarrow> np_less (Fin a) m"
  by (cases m) simp_all

lemma np_less_Fin_between: "np_less (Fin a) m \<Longrightarrow> \<not> np_less (Fin b) m \<Longrightarrow> a < b"
  by (cases m) simp_all

lemma nearest_scan_result:
  "((\<forall>k<length ws. \<not> np_less (Fin (wp_dist x y (ws ! k))) m) \<and>
      nearest_scan x y ws i (m, j) = (m, j)) \<or>
   (\<exists>k<length ws.
      nearest_scan x y ws i (m, j) = (Fin (wp_dist x y (ws ! k)), i + int k) \<and>
      np_less (Fin (wp_dist x y (ws ! k))) m \<and>
      (\<forall>l<length ws. wp_dist x y (ws ! k) \<le> wp_dist x y (ws ! l)) \<and>
      (\<forall>l<k. wp_dist x y (ws ! k) < wp_dist x y (ws ! l)))"
proof (induction ws arbitrary: i m j)
  case Nil
  show ?case by simp
next
  case (Cons w ws)
  let ?D = "wp_dist x y"
  show ?case
  proof (cases "np_less (Fin (?D w)) m")
    case True
    then have step: "nearest_scan x y (w # ws) i (m, j) = nearest_scan x y ws (i + 1) (Fin (?D w), i)"
      by (simp add: wp_dist_def)
    from Cons.IH [of "Fin (?D w)" "i + 1" i]
    show ?thesis
    proof (elim disjE conjE exE)
      assume none: "\<forall>k<length ws. \<not> np_less (Fin (?D (ws ! k))) (Fin (?D w))"
        and r: "nearest_scan x y ws (i + 1) (Fin (?D w), i) = (Fin (?D w), i)"
      have "\<forall>l<length (w # ws). ?D ((w # ws) ! 0) \<le> ?D ((w # ws) ! l)"
      proof (intro allI impI)
        fix l assume "l < length (w # ws)"
        then show "?D ((w # ws) ! 0) \<le> ?D ((w # ws) ! l)"
          using none by (cases l) (auto simp add: not_less)
      qed
      with True step r have
        "0 < length (w # ws) \<and>
         nearest_scan x y (w # ws) i (m, j) = (Fin (?D ((w # ws) ! 0)), i + int 0) \<and>
         np_less (Fin (?D ((w # ws) ! 0))) m \<and>
         (\<forall>l<length (w # ws). ?D ((w # ws) ! 0) \<le> ?D ((w # ws) ! l)) \<and>
         (\<forall>l<0. ?D ((w # ws) ! 0) < ?D ((w # ws) ! l))"
        by simp
      then show ?thesis by blast
    next
      fix k
      assume k: "k < length ws"
        and r: "nearest_scan x y ws (i + 1) (Fin (?D w), i) = (Fin (?D (ws ! k)), i + 1 + int k)"
        and lt: "np_less (Fin (?D (ws ! k))) (Fin (?D w))"
        and mn: "\<forall>l<length ws. ?D (ws ! k) \<le> ?D (ws ! l)"
        and st: "\<forall>l<k. ?D (ws ! k) < ?D (ws ! l)"
      from lt have lt': "?D (ws ! k) < ?D w" by simp
      have a: "np_less (Fin (?D ((w # ws) ! Suc k))) m"
        using np_less_Fin_trans [of "?D (ws ! k)" "?D w" m] lt' True by simp
      have b: "\<forall>l<length (w # ws). ?D ((w # ws) ! Suc k) \<le> ?D ((w # ws) ! l)"
      proof (intro allI impI)
        fix l assume "l < length (w # ws)"
        then show "?D ((w # ws) ! Suc k) \<le> ?D ((w # ws) ! l)"
          using mn lt' by (cases l) auto
      qed
      have c: "\<forall>l<Suc k. ?D ((w # ws) ! Suc k) < ?D ((w # ws) ! l)"
      proof (intro allI impI)
        fix l assume "l < Suc k"
        then show "?D ((w # ws) ! Suc k) < ?D ((w # ws) ! l)"
          using st lt' by (cases l) auto
      qed
      have "Suc k < length (w # ws) \<and>
         nearest_scan x y (w # ws) i (m, j) = (Fin (?D ((w # ws) ! Suc k)), i + int (Suc k))"
        using k step r by simp
      with a b c show ?thesis by blast
    qed
  next
    case False
    then have step: "nearest_scan x y (w # ws) i (m, j) = nearest_scan x y ws (i + 1) (m, j)"
      by (simp add: wp_dist_def)
    from Cons.IH [of m "i + 1" j]
    show ?thesis
    proof (elim disjE conjE exE)
      assume none: "\<forall>k<length ws. \<not> np_less (Fin (?D (ws ! k))) m"
        and r: "nearest_scan x y ws (i + 1) (m, j) = (m, j)"
      have "\<forall>k<length (w # ws). \<not> np_less (Fin (?D ((w # ws) ! k))) m"
      proof (intro allI impI)
        fix k assume "k < length (w # ws)"
        then show "\<not> np_less (Fin (?D ((w # ws) ! k))) m"
          using none False by (cases k) auto
      qed
      with step r show ?thesis by simp
    next
      fix k
      assume k: "k < length ws"
        and r: "nearest_scan x y ws (i + 1) (m, j) = (Fin (?D (ws ! k)), i + 1 + int k)"
        and lt: "np_less (Fin (?D (ws ! k))) m"
        and mn: "\<forall>l<length ws. ?D (ws ! k) \<le> ?D (ws ! l)"
        and st: "\<forall>l<k. ?D (ws ! k) < ?D (ws ! l)"
      from np_less_Fin_between [OF lt False] have lt': "?D (ws ! k) < ?D w" .
      have a: "np_less (Fin (?D ((w # ws) ! Suc k))) m" using lt by simp
      have b: "\<forall>l<length (w # ws). ?D ((w # ws) ! Suc k) \<le> ?D ((w # ws) ! l)"
      proof (intro allI impI)
        fix l assume "l < length (w # ws)"
        then show "?D ((w # ws) ! Suc k) \<le> ?D ((w # ws) ! l)"
          using mn lt' by (cases l) auto
      qed
      have c: "\<forall>l<Suc k. ?D ((w # ws) ! Suc k) < ?D ((w # ws) ! l)"
      proof (intro allI impI)
        fix l assume "l < Suc k"
        then show "?D ((w # ws) ! Suc k) < ?D ((w # ws) ! l)"
          using st lt' by (cases l) auto
      qed
      have "Suc k < length (w # ws) \<and>
         nearest_scan x y (w # ws) i (m, j) = (Fin (?D ((w # ws) ! Suc k)), i + int (Suc k))"
        using k step r by simp
      with a b c show ?thesis by blast
    qed
  qed
qed

text \<open>
  The search of \<^verbatim>\<open>update_desired_speed\<close>, which starts from infinity, returns the
  least index of a nearest waypoint on every non-empty path.
\<close>

lemma desired_search_nearest:
  assumes "waypoints s \<noteq> []"
  shows "\<exists>k<length (waypoints s). desired_min_idx s = int k \<and>
           (\<forall>l<length (waypoints s).
              wp_dist (current_x s) (current_y s) (waypoints s ! k)
                \<le> wp_dist (current_x s) (current_y s) (waypoints s ! l)) \<and>
           (\<forall>l<k. wp_dist (current_x s) (current_y s) (waypoints s ! k)
                    < wp_dist (current_x s) (current_y s) (waypoints s ! l))"
proof -
  from assms have "0 < length (waypoints s)" by simp
  moreover have "np_less (Fin (wp_dist (current_x s) (current_y s) (waypoints s ! 0))) PInf"
    by simp
  ultimately have "\<not> (\<forall>k<length (waypoints s).
      \<not> np_less (Fin (wp_dist (current_x s) (current_y s) (waypoints s ! k))) PInf)"
    by blast
  with nearest_scan_result [of "waypoints s" "current_x s" "current_y s" PInf 0 0]
  show ?thesis by (auto simp add: desired_min_idx_def)
qed

text \<open>
  The search of the lateral controller does so when some waypoint is nearer than
  \<open>10000000\<close>; when none is, it returns the last index.
\<close>

lemma lateral_search_within_sentinel:
  assumes "l0 < length (waypoints s)"
    and "wp_dist (current_x s) (current_y s) (waypoints s ! l0) < 10000000"
  shows "\<exists>k<length (waypoints s). lateral_idx s = int k \<and>
           (\<forall>l<length (waypoints s).
              wp_dist (current_x s) (current_y s) (waypoints s ! k)
                \<le> wp_dist (current_x s) (current_y s) (waypoints s ! l)) \<and>
           (\<forall>l<k. wp_dist (current_x s) (current_y s) (waypoints s ! k)
                    < wp_dist (current_x s) (current_y s) (waypoints s ! l))"
proof -
  from assms have "\<not> (\<forall>k<length (waypoints s).
      \<not> np_less (Fin (wp_dist (current_x s) (current_y s) (waypoints s ! k))) (Fin 10000000))"
    by auto
  with nearest_scan_result [of "waypoints s" "current_x s" "current_y s" "Fin 10000000" 0
      "int (length (waypoints s)) - 1"]
  show ?thesis by (auto simp add: lateral_idx_def)
qed

lemma lateral_search_beyond_sentinel:
  assumes "\<forall>l<length (waypoints s).
             10000000 \<le> wp_dist (current_x s) (current_y s) (waypoints s ! l)"
  shows "lateral_idx s = int (length (waypoints s)) - 1"
proof -
  from assms have "\<forall>k<length (waypoints s).
      \<not> np_less (Fin (wp_dist (current_x s) (current_y s) (waypoints s ! k))) (Fin 10000000)"
    by (auto simp add: not_less)
  with nearest_scan_result [of "waypoints s" "current_x s" "current_y s" "Fin 10000000" 0
      "int (length (waypoints s)) - 1"]
  show ?thesis by (auto simp add: lateral_idx_def)
qed

subsection \<open>The quotient of the lateral law\<close>

text \<open>With a speed other than zero the quotient is the real one.\<close>

lemma yaw_diff_crosstrack_nonzero_speed:
  "v \<noteq> 0 \<Longrightarrow> yaw_diff_crosstrack crosstrack_error v = Fin (arctan (5 * crosstrack_error / v))"
  by (simp add: yaw_diff_crosstrack_def np_divide_def)

subsection \<open>Angles and square roots\<close>

lemma wrap_steer_expect_Fin: "wrap_steer_expect (Fin a) = Fin (wrap_theta_fai a)"
proof -
  have "0 < pi" by simp
  then show ?thesis
    by (auto simp add: wrap_steer_expect_def wrap_theta_fai_def Let_def)
qed

lemma sqrt_1e14: "sqrt 100000000000000 = 10000000"
  using real_sqrt_abs [of "10000000 :: real"] by simp

lemma sqrt_4e14: "sqrt 400000000000000 = 20000000"
  using real_sqrt_abs [of "20000000 :: real"] by simp

lemma full_lock_above:
  "3 / 4 < 180 / 70 / pi * 1.22"
proof -
  have "pi < 4" by (rule pi_less_4)
  moreover have "0 < pi" by simp
  ultimately have "3 / 4 * pi < 3" by simp
  then show ?thesis using \<open>0 < pi\<close> by (simp add: field_simps)
qed

section \<open>The warm-up cycle\<close>

text \<open>
  C2. Whenever \<^verbatim>\<open>update_controls\<close> is called while \<^verbatim>\<open>_start_control_loop\<close> is false,
  on a path that is not empty (the data model excludes the empty path, on which
  \<^verbatim>\<open>update_desired_speed\<close> raises first), the call raises the unbound-local error of
  the last statement, which reads \<open>s1\<close>. None of \<^verbatim>\<open>_set_throttle\<close>, \<^verbatim>\<open>_set_steer\<close>,
  \<^verbatim>\<open>_set_brake\<close> is written, and \<open>vars.v_previous\<close> already holds the current speed.
\<close>

theorem warmup_cycle_raises:
  assumes "\<not> start_control_loop s" and "waypoints s \<noteq> []"
  shows "\<exists>s'. update_controls s = Inl (UnboundLocalError, s') \<and>
              set_throttle_fld s' = set_throttle_fld s \<and>
              set_steer_fld s' = set_steer_fld s \<and>
              set_brake_fld s' = set_brake_fld s \<and>
              vars s' ''v_previous'' = Some (current_speed s)"
  using assms by (simp add: update_controls_warmup)

theorem warmup_cycle_raises_witness:
  "\<not> start_control_loop (update_values 1 2 0 3 0 0 (init [(0, 0, 5), (10, 0, 5)])) \<and>
   waypoints (update_values 1 2 0 3 0 0 (init [(0, 0, 5), (10, 0, 5)])) \<noteq> [] \<and>
   (\<exists>s'. update_controls (update_values 1 2 0 3 0 0 (init [(0, 0, 5), (10, 0, 5)]))
            = Inl (UnboundLocalError, s') \<and>
          set_throttle_fld s' = 0 \<and> set_steer_fld s' = 0 \<and> set_brake_fld s' = 0 \<and>
          vars s' ''v_previous'' = Some 3)"
  using warmup_cycle_raises [of "update_values 1 2 0 3 0 0 (init [(0, 0, 5), (10, 0, 5)])"]
  by (simp add: update_values_def init_def)

text \<open>
  C1. A cycle in the warm-up state is meant to be skipped and to end with the zero command.
  On a fresh controller that has observed frame \<open>0\<close>, \<^verbatim>\<open>update_controls\<close> does not
  return: it raises the unbound-local error.
\<close>

theorem warmup_cycle_does_not_return:
  "isl (update_controls (update_values 0 0 0 0 0 0 (init [(0, 0, 5), (10, 0, 5), (20, 0, 5)]))) \<and>
   fst (projl (update_controls (update_values 0 0 0 0 0 0 (init [(0, 0, 5), (10, 0, 5), (20, 0, 5)]))))
     = UnboundLocalError"
  by (simp add: update_controls_warmup update_values_def init_def)

section \<open>The latch\<close>



section \<open>The look-ahead index\<close>

text \<open>
  C9. For every index \<open>idx\<close> and every path, the look-ahead index of the lateral
  controller is \<open>idx + 17\<close> when \<open>idx < len - 18\<close>, and \<open>len - 1\<close> otherwise.
\<close>

theorem lookahead_index_law:
  "(idx < int (length wps) - 18 \<longrightarrow> lookahead_idy idx (int (length wps)) = idx + 17) \<and>
   (\<not> idx < int (length wps) - 18 \<longrightarrow> lookahead_idy idx (int (length wps)) = int (length wps) - 1)"
  by (simp add: lookahead_idy_def)

theorem lookahead_index_law_witness:
  "(0::int) < int (length (replicate 19 (0::real, 0::real, 5::real))) - 18 \<and>
   lookahead_idy 0 (int (length (replicate 19 (0::real, 0::real, 5::real)))) = 17 \<and>
   \<not> (0::int) < int (length [(0::real, 0::real, 5::real)]) - 18 \<and>
   lookahead_idy 0 (int (length [(0::real, 0::real, 5::real)])) = 0"
  using lookahead_index_law [of 0 "replicate 19 (0::real, 0::real, 5::real)"]
    lookahead_index_law [of 0 "[(0::real, 0::real, 5::real)]"]
  by simp

section \<open>The bounds of the command\<close>

text \<open>
  C3. Every command the controller reports is within its documented bounds: the setters
  clamp the throttle and the brake to \<open>[0, 1]\<close> and the steering, converted by
  \<open>180 / 70 / pi\<close>, to \<open>[-1, 1]\<close>; and after any sequence of calls on a new
  controller, whether they return or raise, \<^verbatim>\<open>get_commands\<close> is within the bounds.
\<close>

theorem commands_within_bounds:
  "0 \<le> set_throttle_fld (set_throttle t s) \<and> set_throttle_fld (set_throttle t s) \<le> 1 \<and>
   0 \<le> set_brake_fld (set_brake b s) \<and> set_brake_fld (set_brake b s) \<le> 1 \<and>
   - 1 \<le> set_steer_fld (set_steer a s) \<and> set_steer_fld (set_steer a s) \<le> 1 \<and>
   set_steer_fld (set_steer a s) = max (min (180 / 70 / pi * a) 1) (- 1) \<and>
   command_in_bounds (get_commands (run ops (init wps)))"
proof -
  have "command_in_bounds (get_commands (init wps))"
    by (simp add: command_in_bounds_def get_commands_def init_def)
  then have "command_in_bounds (get_commands (run ops (init wps)))" by (rule run_in_bounds)
  then show ?thesis
    by (simp add: set_throttle_def set_brake_def set_steer_def conv_rad_to_steer_def)
qed

section \<open>The longitudinal law\<close>

text \<open>
  C4. In an active cycle on a non-empty path \<^verbatim>\<open>update_controls\<close> returns, and the
  throttle, the brake, the stored integral and the stored previous error are those of
  the specification's PID law, applied to the desired speed of this cycle, the current
  speed, and the integral and previous error the cycle started with.
\<close>

theorem longitudinal_pid_law:
  assumes "start_control_loop s" and "waypoints s \<noteq> []"
  shows "\<exists>s'. update_controls s = Inr s' \<and>
           desired_speed s' = wp_v (waypoints s ! nat (desired_min_idx s)) \<and>
           (set_throttle_fld s', set_brake_fld s', vars s' ''e_total'', vars s' ''e_previous'') =
           (case pid_law (desired_speed s') (current_speed s)
                   (persistent_value s ''e_total'') (persistent_value s ''e_previous'') of
              (throttle, brake, integral, previous_error) \<Rightarrow>
                (throttle, brake, Some integral, Some previous_error))"
proof -
  define d where "d = wp_v (waypoints s ! nat (desired_min_idx s))"
  define et where "et = (case vars s ''e_total'' of None \<Rightarrow> 0 | Some v \<Rightarrow> v)"
  define ep where "ep = (case vars s ''e_previous'' of None \<Rightarrow> 0 | Some v \<Rightarrow> v)"
  define err where "err = d - current_speed s"
  define tgt where "tgt = 0.2 * err + 0.01 * (et + err) + 0.05 * (err - ep)"
  from update_controls_active [OF assms d_def et_def ep_def err_def tgt_def]
  obtain s' where u: "update_controls s = Inr s'"
    and t: "set_throttle_fld s' = max (min (if tgt < 0 then 0 else tgt) 1) 0"
    and b: "set_brake_fld s' = max (min (if tgt < 0 then \<bar>tgt\<bar> else 0) 1) 0"
    and ds: "desired_speed s' = d"
    and v1: "vars s' ''e_total'' = Some (et + err)"
    and v2: "vars s' ''e_previous'' = Some err"
    by blast
  have p: "pid_law d (current_speed s) et ep =
             (saturate01 (if tgt < 0 then 0 else tgt),
              saturate01 (if tgt < 0 then \<bar>tgt\<bar> else 0), et + err, err)"
    unfolding pid_law_def Let_def err_def [symmetric] tgt_def [symmetric] ..
  have pv: "persistent_value s ''e_total'' = et" "persistent_value s ''e_previous'' = ep"
    by (simp_all add: persistent_value_def et_def ep_def)
  show ?thesis
    by (rule exI [of _ s'])
      (simp only: u ds pv p prod.case t b v1 v2 saturate01_clamp d_def [symmetric] simp_thms)
qed

theorem longitudinal_pid_law_witness:
  "start_control_loop (update_values 0 0 0 0 0 1 (init [(0, 0, 5)])) \<and>
   waypoints (update_values 0 0 0 0 0 1 (init [(0, 0, 5)])) \<noteq> [] \<and>
   (\<exists>s'. update_controls (update_values 0 0 0 0 0 1 (init [(0, 0, 5)])) = Inr s' \<and>
      desired_speed s' = 5 \<and>
      (set_throttle_fld s', set_brake_fld s', vars s' ''e_total'', vars s' ''e_previous'') =
      (1, 0, Some 5, Some 5))"
proof -
  let ?s = "update_values 0 0 0 0 0 1 (init [(0, 0, 5)])"
  have a: "start_control_loop ?s" by (simp add: update_values_def init_def)
  have b: "waypoints ?s \<noteq> []" by (simp add: update_values_def init_def)
  have i: "desired_min_idx ?s = 0"
    by (simp add: desired_min_idx_def update_values_def init_def wp_x_def wp_y_def)
  have d: "wp_v (waypoints ?s ! nat (desired_min_idx ?s)) = 5"
    by (simp add: i, simp add: update_values_def init_def wp_v_def)
  have c: "current_speed ?s = 0" by (simp add: update_values_def init_def)
  have pv: "persistent_value ?s ''e_total'' = 0" "persistent_value ?s ''e_previous'' = 0"
    by (simp_all add: persistent_value_def update_values_def init_def)
  have p: "pid_law 5 0 0 0 = (1, 0, 5, 5)"
    by (simp add: pid_law_def saturate01_def Let_def)
  from longitudinal_pid_law [OF a b] obtain s' where
    "update_controls ?s = Inr s'" "desired_speed s' = 5"
    "(set_throttle_fld s', set_brake_fld s', vars s' ''e_total'', vars s' ''e_previous'') =
       (1, 0, Some 5, Some 5)"
    by (auto simp add: d c pv p)
  with a b show ?thesis by blast
qed

section \<open>The nearest waypoint\<close>

text \<open>
  C5. Both searches are meant to return the least index of a waypoint at minimal
  distance. The search of the lateral controller starts from the distance
  \<open>10000000\<close> and the last index instead of infinity: on the path
  \<open>[(10000000, 0, 5), (20000000, 0, 5)]\<close> and the position \<open>(0, 0)\<close> it returns
  index \<open>1\<close>, where the search of \<^verbatim>\<open>update_desired_speed\<close> returns the nearest
  waypoint, index \<open>0\<close>.
\<close>

theorem lateral_search_misses_nearest:
  "lateral_idx (update_values 0 0 0 5 0 1 (init [(10000000, 0, 5), (20000000, 0, 5)])) = 1 \<and>
   desired_min_idx (update_values 0 0 0 5 0 1 (init [(10000000, 0, 5), (20000000, 0, 5)])) = 0 \<and>
   sqrt ((10000000 - 0) ^ 2 + (0 - 0) ^ 2) < sqrt ((20000000 - 0) ^ 2 + (0 - 0) ^ 2 :: real)"
  by (simp add: lateral_idx_def desired_min_idx_def update_values_def init_def wp_x_def wp_y_def
      sqrt_1e14 sqrt_4e14)

section \<open>The division by the speed\<close>

text \<open>
  C6. The lateral law divides by the current speed with no guard. On the path
  \<open>[(0, 0, 5), (10, 0, 5), (20, 0, 5)]\<close>, at rest at the first waypoint and heading
  along the path, the quotient is \<open>0 / 0\<close>: the cycle raises nothing, the NaN is
  replaced by \<open>1.22\<close> in \<^verbatim>\<open>min(1.22, steer_expect)\<close>, and the steering command is
  \<open>180 / 70 / pi * 1.22\<close>, more than three quarters of full lock.
\<close>

theorem zero_speed_steer_garbage:
  "start_control_loop (update_values 0 0 0 0 0 1 (init [(0, 0, 5), (10, 0, 5), (20, 0, 5)])) \<and>
   current_speed (update_values 0 0 0 0 0 1 (init [(0, 0, 5), (10, 0, 5), (20, 0, 5)])) = 0 \<and>
   yaw_diff_crosstrack 0 0 = NaN \<and>
   lateral (update_values 0 0 0 0 0 1 (init [(0, 0, 5), (10, 0, 5), (20, 0, 5)])) = Inr 1.22 \<and>
   \<not> isl (update_controls (update_values 0 0 0 0 0 1 (init [(0, 0, 5), (10, 0, 5), (20, 0, 5)]))) \<and>
   set_steer_fld (projr (update_controls
       (update_values 0 0 0 0 0 1 (init [(0, 0, 5), (10, 0, 5), (20, 0, 5)]))))
     = max (min (180 / 70 / pi * 1.22) 1) (- 1) \<and>
   3 / 4 < set_steer_fld (projr (update_controls
       (update_values 0 0 0 0 0 1 (init [(0, 0, 5), (10, 0, 5), (20, 0, 5)]))))"
proof -
  let ?s = "update_values 0 0 0 0 0 1 (init [(0, 0, 5), (10, 0, 5), (20, 0, 5)])"
  have act: "start_control_loop ?s" by (simp add: update_values_def init_def)
  have ne: "waypoints ?s \<noteq> []" by (simp add: update_values_def init_def)
  have v: "current_speed ?s = 0" by (simp add: update_values_def init_def)
  have nan: "yaw_diff_crosstrack 0 0 = NaN" by (simp add: yaw_diff_crosstrack_def np_divide_def)
  have idx: "lateral_idx ?s = 0"
    by (simp add: lateral_idx_def update_values_def init_def wp_x_def wp_y_def)
  have wps: "waypoints ?s = [(0, 0, 5), (10, 0, 5), (20, 0, 5)]" "current_x ?s = 0"
    "current_y ?s = 0" "current_yaw ?s = 0"
    by (simp_all add: update_values_def init_def)
  have lat: "lateral ?s = Inr 1.22"
    unfolding lateral_def idx wps v
    by (simp add: lookahead_idy_def py_index_def wp_x_def wp_y_def arctan2_def
        wrap_theta_fai_def nan wrap_steer_expect_def clamp_steer_expect_def py_min_def
        py_max_def Let_def)
  from update_controls_active [OF act ne refl refl refl refl refl]
  obtain r s' where lr: "lateral ?s = Inr r" and u: "update_controls ?s = Inr s'"
    and sr: "set_steer_fld s' = max (min (conv_rad_to_steer * r) 1) (- 1)" by blast
  from lr lat have "Inr r = (Inr 1.22 :: error + real)" by (simp only:)
  then have r: "r = 1.22" by (simp only: sum.inject)
  have st: "set_steer_fld s' = max (min (180 / 70 / pi * 1.22) 1) (- 1)"
    unfolding sr r conv_rad_to_steer_def ..
  have "3 / 4 < max (min (180 / 70 / pi * 1.22) 1) (- 1 :: real)"
    using full_lock_above by simp
  with act v nan lat u st show ?thesis by simp
qed

section \<open>The wrapping of angles\<close>

text \<open>
  C8, as stated: for any input angle the wrapped value lies in \<open>(-pi, pi]\<close>. It
  fails: a single correction sends \<open>4 * pi\<close> to \<open>2 * pi\<close>, in both wrappings, and
  leaves \<open>-pi\<close> where it is.
\<close>

theorem single_wrap_counterexample:
  "\<not> (- pi < wrap_theta_fai (4 * pi) \<and> wrap_theta_fai (4 * pi) \<le> pi) \<and>
   wrap_steer_expect (Fin (4 * pi)) = Fin (2 * pi) \<and>
   \<not> (- pi < wrap_theta_fai (- pi) \<and> wrap_theta_fai (- pi) \<le> pi)"
proof -
  have p: "0 < pi" by simp
  have a: "wrap_theta_fai (4 * pi) = 2 * pi" using p by (simp add: wrap_theta_fai_def)
  have b: "wrap_theta_fai (- pi) = - pi" using p by (simp add: wrap_theta_fai_def)
  show ?thesis using p by (simp add: wrap_steer_expect_Fin a b)
qed

text \<open>
  C8, amended: for every angle \<open>a\<close> with \<open>-3 * pi < a \<le> 3 * pi\<close> other than
  \<open>-pi\<close>, the heading error wrapped once lies in \<open>(-pi, pi]\<close>, and the wrapping of
  the expected steering gives the same value.
\<close>

theorem single_wrap_range:
  assumes "- (3 * pi) < a" and "a \<le> 3 * pi" and "a \<noteq> - pi"
  shows "- pi < wrap_theta_fai a \<and> wrap_theta_fai a \<le> pi \<and>
         wrap_steer_expect (Fin a) = Fin (wrap_theta_fai a)"
proof -
  have "- pi < wrap_theta_fai a \<and> wrap_theta_fai a \<le> pi"
    using assms by (auto simp add: wrap_theta_fai_def)
  then show ?thesis by (simp add: wrap_steer_expect_Fin)
qed

theorem single_wrap_range_witness:
  "- (3 * pi) < 2 * pi \<and> 2 * pi \<le> 3 * pi \<and> 2 * pi \<noteq> - pi \<and>
   - pi < wrap_theta_fai (2 * pi) \<and> wrap_theta_fai (2 * pi) \<le> pi \<and>
   wrap_steer_expect (Fin (2 * pi)) = Fin (wrap_theta_fai (2 * pi))"
proof -
  have p: "0 < pi" by simp
  have h1: "- (3 * pi) < 2 * pi" using p by linarith
  have h2: "2 * pi \<le> 3 * pi" using p by linarith
  have h3: "2 * pi \<noteq> - pi" using p by linarith
  show ?thesis using h1 h2 h3 single_wrap_range [OF h1 h2 h3] by blast
qed

section \<open>Throttle and brake\<close>

text \<open>
  C10, as stated: in every cycle exactly one of throttle and brake is non-zero. It
  fails in the first active cycle of a vehicle that already runs at the desired speed:
  the target acceleration is \<open>0\<close>, and both are zero.
\<close>

theorem throttle_and_brake_both_zero:
  "start_control_loop (update_values 0 0 0 5 0 1 (init [(0, 0, 5), (10, 0, 5)])) \<and>
   \<not> isl (update_controls (update_values 0 0 0 5 0 1 (init [(0, 0, 5), (10, 0, 5)]))) \<and>
   fst (get_commands (projr (update_controls
          (update_values 0 0 0 5 0 1 (init [(0, 0, 5), (10, 0, 5)]))))) = 0 \<and>
   snd (snd (get_commands (projr (update_controls
          (update_values 0 0 0 5 0 1 (init [(0, 0, 5), (10, 0, 5)])))))) = 0"
proof -
  let ?s = "update_values 0 0 0 5 0 1 (init [(0, 0, 5), (10, 0, 5)])"
  have act: "start_control_loop ?s" by (simp add: update_values_def init_def)
  have ne: "waypoints ?s \<noteq> []" by (simp add: update_values_def init_def)
  have idx: "desired_min_idx ?s = 0"
    by (simp add: desired_min_idx_def update_values_def init_def wp_x_def wp_y_def)
  have d: "(5::real) = wp_v (waypoints ?s ! nat (desired_min_idx ?s))"
    by (simp add: idx, simp add: update_values_def init_def wp_v_def)
  have et: "(0::real) = (case vars ?s ''e_total'' of None \<Rightarrow> 0 | Some v \<Rightarrow> v)"
    by (simp add: update_values_def init_def)
  have ep: "(0::real) = (case vars ?s ''e_previous'' of None \<Rightarrow> 0 | Some v \<Rightarrow> v)"
    by (simp add: update_values_def init_def)
  have err: "(0::real) = 5 - current_speed ?s" by (simp add: update_values_def init_def)
  have tgt: "(0::real) = 0.2 * 0 + 0.01 * (0 + 0) + 0.05 * (0 - 0)" by simp
  from update_controls_active [OF act ne d et ep err tgt]
  obtain s' where "update_controls ?s = Inr s'" "set_throttle_fld s' = 0" "set_brake_fld s' = 0"
    by auto
  with act show ?thesis by (simp add: get_commands_def)
qed

text \<open>
  C10, amended: in an active cycle on a non-empty path the throttle is non-zero exactly
  when the target acceleration is positive and the brake exactly when it is negative, so
  exactly one of them is non-zero unless the target acceleration is zero; and after any
  sequence of observations, path replacements and control cycles on a new controller
  they are never both non-zero.
\<close>

theorem throttle_brake_exactly_one:
  "(list_all cycle_op ops \<longrightarrow>
      fst (get_commands (run ops (init wps))) = 0 \<or>
      snd (snd (get_commands (run ops (init wps)))) = 0) \<and>
   (start_control_loop s \<and> waypoints s \<noteq> [] \<longrightarrow>
      (\<exists>s'. update_controls s = Inr s' \<and>
         (fst (get_commands s') \<noteq> 0) = (0 < target_acceleration s) \<and>
         (snd (snd (get_commands s')) \<noteq> 0) = (target_acceleration s < 0)))"
proof (intro conjI impI)
  assume ops: "list_all cycle_op ops"
  have "set_throttle_fld (init wps) = 0 \<or> set_brake_fld (init wps) = 0"
    by (simp add: init_def)
  from run_not_both [OF ops this]
  show "fst (get_commands (run ops (init wps))) = 0 \<or>
        snd (snd (get_commands (run ops (init wps)))) = 0"
    by (simp add: get_commands_def)
next
  assume "start_control_loop s \<and> waypoints s \<noteq> []"
  then have "start_control_loop s" "waypoints s \<noteq> []" by simp_all
  from active_cycle_one_nonzero [OF this]
  show "\<exists>s'. update_controls s = Inr s' \<and>
         (fst (get_commands s') \<noteq> 0) = (0 < target_acceleration s) \<and>
         (snd (snd (get_commands s')) \<noteq> 0) = (target_acceleration s < 0)"
    by (simp add: get_commands_def)
qed

theorem throttle_brake_exactly_one_witness:
  "list_all cycle_op [UpdateValues 0 0 0 0 0 1, UpdateControls] \<and>
   start_control_loop (update_values 0 0 0 0 0 1 (init [(0, 0, 5)])) \<and>
   waypoints (update_values 0 0 0 0 0 1 (init [(0, 0, 5)])) \<noteq> [] \<and>
   target_acceleration (update_values 0 0 0 0 0 1 (init [(0, 0, 5)])) = 13 / 10 \<and>
   (fst (get_commands (run [UpdateValues 0 0 0 0 0 1, UpdateControls] (init [(0, 0, 5)]))) = 0 \<or>
    snd (snd (get_commands (run [UpdateValues 0 0 0 0 0 1, UpdateControls] (init [(0, 0, 5)])))) = 0) \<and>
   (\<exists>s'. update_controls (update_values 0 0 0 0 0 1 (init [(0, 0, 5)])) = Inr s' \<and>
      fst (get_commands s') \<noteq> 0 \<and> snd (snd (get_commands s')) = 0)"
proof -
  let ?s = "update_values 0 0 0 0 0 1 (init [(0, 0, 5)])"
  have o: "list_all cycle_op [UpdateValues 0 0 0 0 0 1, UpdateControls]" by simp
  have a: "start_control_loop ?s" by (simp add: update_values_def init_def)
  have b: "waypoints ?s \<noteq> []" by (simp add: update_values_def init_def)
  have i: "desired_min_idx ?s = 0"
    by (simp add: desired_min_idx_def update_values_def init_def wp_x_def wp_y_def)
  have ta: "target_acceleration ?s = 13 / 10"
    unfolding target_acceleration_def i
    by (simp add: persistent_value_def update_values_def init_def wp_v_def)
  from throttle_brake_exactly_one
    [of "[UpdateValues 0 0 0 0 0 1, UpdateControls]" "[(0, 0, 5)]" ?s] o a b
  have n: "fst (get_commands (run [UpdateValues 0 0 0 0 0 1, UpdateControls] (init [(0, 0, 5)]))) = 0 \<or>
      snd (snd (get_commands (run [UpdateValues 0 0 0 0 0 1, UpdateControls] (init [(0, 0, 5)])))) = 0"
    and e: "\<exists>s'. update_controls ?s = Inr s' \<and>
         (fst (get_commands s') \<noteq> 0) = (0 < target_acceleration ?s) \<and>
         (snd (snd (get_commands s')) \<noteq> 0) = (target_acceleration ?s < 0)"
    by blast+
  from e have "\<exists>s'. update_controls ?s = Inr s' \<and>
      fst (get_commands s') \<noteq> 0 \<and> snd (snd (get_commands s')) = 0"
    unfolding ta by simp
  with o a b ta n show ?thesis by blast
qed

end
